theory Spec2Isabelle
  imports Complex_Main "HOL-Library.Log_Nat"
begin

section \<open>Value objects\<close>

text \<open>
  Identifiers are UUIDs; \<open>str(uuid)\<close> is injective, so a UUID and its string form are
  the same value here. Money is Python's \<open>Decimal\<close>: an exact decimal fraction, here a
  rational number of currency units (the default price \<open>Decimal("0.00299")\<close> is
  \<open>299 / 100000\<close>). The amounts are taken to have at most 28 significant digits, the
  precision of Python's default context, so that \<open>abs\<close> and negation are exact.
  Timestamps of rows are abstract clock readings.
\<close>

type_synonym uuid = string
type_synonym decimal = rat
type_synonym datetime = int

datatype TaskType = RECAPTCHA_V2 | RECAPTCHA_V2_INVISIBLE | RECAPTCHA_V3 | HCAPTCHA

datatype TaskStatus = PENDING | PROCESSING | READY | FAILED

datatype TransactionType = DEPOSIT | DEDUCT | REFUND | BONUS

text \<open>\<open>TaskStatus.is_terminal\<close> and \<open>TaskStatus.can_transition_to\<close> (enums.py).\<close>

definition is_terminal :: "TaskStatus \<Rightarrow> bool" where
  "is_terminal self = (self \<in> {READY, FAILED})"

fun allowed_transitions :: "TaskStatus \<Rightarrow> TaskStatus set" where
  "allowed_transitions PENDING = {PROCESSING, FAILED}"
| "allowed_transitions PROCESSING = {READY, FAILED}"
| "allowed_transitions READY = {}"
| "allowed_transitions FAILED = {}"

definition can_transition_to :: "TaskStatus \<Rightarrow> TaskStatus \<Rightarrow> bool" where
  "can_transition_to self target = (target \<in> allowed_transitions self)"

section \<open>Floating-point numbers\<close>

text \<open>
  A Python float and a Lua number are IEEE 754 doubles: \<open>float(d)\<close> is the double
  nearest a \<open>Decimal\<close>, and each subtraction and addition of doubles gives the double
  nearest the exact result, ties to the even significand. A double is modelled by
  the rational number it stands for. \<open>round_digits b n x\<close> is \<open>x\<close> rounded to \<open>n\<close>
  significant digits in base \<open>b\<close>: \<open>exponent_of b a\<close> is the exponent of the leading
  digit of \<open>a > 0\<close>, the integer \<open>e\<close> with \<open>b^e \<le> a < b^(e+1)\<close>. \<open>to_double\<close> rounds to
  the 53 binary digits of a double (the clock readings and their differences are far
  from the ends of the exponent range, which is left out). Lua turns a number into
  a string with the format \<open>%.14g\<close> (\<open>lua_number2str\<close>): the string shows the number
  rounded to 14 significant decimal digits, and two numbers give the same string
  exactly when these roundings are equal, so the rounded number stands for the string.
\<close>

definition round_half_even :: "rat \<Rightarrow> int" where
  "round_half_even x =
     (let n = \<lfloor>x\<rfloor>; r = x - of_int n
      in if r < 1 / 2 then n else if 1 / 2 < r then n + 1 else if even n then n else n + 1)"

definition exponent_of :: "nat \<Rightarrow> rat \<Rightarrow> int" where
  "exponent_of b a =
     (if 1 \<le> a then int (floorlog b (nat \<lfloor>a\<rfloor>)) - 1
      else - int (floorlog b (nat (\<lceil>1 / a\<rceil> - 1))))"

definition round_digits :: "nat \<Rightarrow> nat \<Rightarrow> rat \<Rightarrow> rat" where
  "round_digits b n x =
     (if x = 0 then 0
      else let unit = of_nat b powi (exponent_of b \<bar>x\<bar> - (int n - 1))
           in sgn x * of_int (round_half_even (\<bar>x\<bar> / unit)) * unit)"

definition to_double :: "rat \<Rightarrow> rat" where
  "to_double = round_digits 2 53"

definition lua_number2str :: "rat \<Rightarrow> rat" where
  "lua_number2str = round_digits 10 14"

section \<open>Domain exceptions\<close>

text \<open>
  Every exception the modelled code raises is a value. \<open>InsufficientBalanceError\<close>
  carries two floats. \<open>IntegrityError\<close> is the database driver's error for a violated
  constraint, \<open>DataError\<close> its error for a value that a column cannot hold
  (\<open>numeric field overflow\<close>).
\<close>

datatype error =
    EntityNotFoundError string string
  | InvalidStateTransitionError TaskStatus TaskStatus
  | InsufficientBalanceError rat rat
  | RefundAlreadyProcessedError string
  | ValueError string
  | IntegrityError
  | DataError

section \<open>Entities\<close>

text \<open>
  The \<open>Task\<close> aggregate (task.py). The fields \<open>id\<close>, \<open>user_id\<close>, \<open>type\<close> and
  \<open>created_at\<close> carry the prefix \<open>task_\<close>, the same fields of \<open>Transaction\<close> the
  prefix \<open>tx_\<close>.
\<close>

record Task =
  task_id :: uuid
  task_user_id :: uuid
  task_type :: TaskType
  status :: TaskStatus
  website_url :: "string option"
  website_key :: string
  website_domain :: "string option"
  is_enterprise :: bool
  token :: "string option"
  cost :: decimal
  error_code :: "string option"
  error_desc :: "string option"
  retry_count :: int
  task_created_at :: datetime
  started_at :: "datetime option"
  completed_at :: "datetime option"

text \<open>
  \<open>Task.transition_to\<close> raises before it assigns; \<open>Task.start_processing\<close>,
  \<open>Task.complete\<close> and \<open>Task.fail\<close> set their fields only after the transition went
  through. The methods of the entity carry the prefix \<open>Task_\<close>, which keeps them apart
  from the service methods of the same names. The reading of \<open>datetime.utcnow()\<close> is
  the argument \<open>now\<close>.
\<close>

definition Task_transition_to :: "Task \<Rightarrow> TaskStatus \<Rightarrow> error + Task" where
  "Task_transition_to self new_status =
     (if \<not> can_transition_to (status self) new_status
      then Inl (InvalidStateTransitionError (status self) new_status)
      else Inr (self\<lparr>status := new_status\<rparr>))"

definition Task_start_processing :: "datetime \<Rightarrow> Task \<Rightarrow> error + Task" where
  "Task_start_processing now self =
     (case Task_transition_to self PROCESSING of
        Inl e \<Rightarrow> Inl e
      | Inr t \<Rightarrow> Inr (t\<lparr>started_at := Some now\<rparr>))"

definition Task_complete :: "datetime \<Rightarrow> Task \<Rightarrow> string \<Rightarrow> decimal \<Rightarrow> error + Task" where
  "Task_complete now self tok cst =
     (case Task_transition_to self READY of
        Inl e \<Rightarrow> Inl e
      | Inr t \<Rightarrow> Inr (t\<lparr>token := Some tok, cost := cst, completed_at := Some now\<rparr>))"

definition Task_fail :: "datetime \<Rightarrow> Task \<Rightarrow> string \<Rightarrow> string option \<Rightarrow> error + Task" where
  "Task_fail now self ecode edesc =
     (case Task_transition_to self FAILED of
        Inl e \<Rightarrow> Inl e
      | Inr t \<Rightarrow> Inr (t\<lparr>error_code := Some ecode, error_desc := edesc,
                         completed_at := Some now\<rparr>))"

text \<open>
  The \<open>Transaction\<close> entity (transaction.py). Each constructor draws a fresh
  \<open>uuid4()\<close> and reads the clock for \<open>created_at\<close>; both are arguments here.
\<close>

record Transaction =
  tx_id :: uuid
  tx_user_id :: uuid
  tx_type :: TransactionType
  amount :: decimal
  balance_after :: decimal
  reference_id :: string
  reference_type :: string
  description :: "string option"
  tx_created_at :: datetime

definition create_deduct ::
  "uuid \<Rightarrow> datetime \<Rightarrow> uuid \<Rightarrow> decimal \<Rightarrow> decimal \<Rightarrow> string \<Rightarrow> string option \<Rightarrow> Transaction" where
  "create_deduct new_id now uid amt bal tid descr =
     \<lparr>tx_id = new_id, tx_user_id = uid, tx_type = DEDUCT, amount = - \<bar>amt\<bar>,
      balance_after = bal, reference_id = tid, reference_type = ''TASK'',
      description = descr, tx_created_at = now\<rparr>"

definition create_refund ::
  "uuid \<Rightarrow> datetime \<Rightarrow> uuid \<Rightarrow> decimal \<Rightarrow> decimal \<Rightarrow> string \<Rightarrow> string option \<Rightarrow> Transaction" where
  "create_refund new_id now uid amt bal tid descr =
     \<lparr>tx_id = new_id, tx_user_id = uid, tx_type = REFUND, amount = \<bar>amt\<bar>,
      balance_after = bal, reference_id = tid, reference_type = ''TASK_REFUND'',
      description = descr, tx_created_at = now\<rparr>"

definition create_deposit ::
  "uuid \<Rightarrow> datetime \<Rightarrow> uuid \<Rightarrow> decimal \<Rightarrow> decimal \<Rightarrow> string \<Rightarrow> string option \<Rightarrow> Transaction" where
  "create_deposit new_id now uid amt bal payment_id descr =
     \<lparr>tx_id = new_id, tx_user_id = uid, tx_type = DEPOSIT, amount = \<bar>amt\<bar>,
      balance_after = bal, reference_id = payment_id, reference_type = ''PAYMENT'',
      description = descr, tx_created_at = now\<rparr>"

section \<open>Database and session\<close>

text \<open>
  The columns \<open>users.balance\<close>, \<open>tasks.cost\<close>, \<open>transactions.amount\<close> and
  \<open>transactions.balance_after\<close> are \<open>Numeric(12, 4)\<close> (models.py). PostgreSQL rounds a
  value written to such a column to 4 decimals, ties away from zero (\<open>quantize\<close>), and
  refuses it with \<open>numeric field overflow\<close> when the rounded value has more than 8
  digits before the point (\<open>numeric_12_4\<close>). A value is \<open>stored\<close> when the column
  holds it as it is.
\<close>

definition quantize :: "decimal \<Rightarrow> decimal" where
  "quantize x =
     (if 0 \<le> x then of_int \<lfloor>x * 10000 + 1 / 2\<rfloor> / 10000
      else - (of_int \<lfloor>- x * 10000 + 1 / 2\<rfloor> / 10000))"

definition numeric_12_4 :: "decimal \<Rightarrow> error + decimal" where
  "numeric_12_4 x = (if 100000000 \<le> \<bar>quantize x\<bar> then Inl DataError else Inr (quantize x))"

definition stored :: "decimal \<Rightarrow> bool" where
  "stored x = (numeric_12_4 x = Inr x)"

text \<open>
  The tables are lists of rows. Of a \<open>users\<close> row the modelled code reads and writes
  the primary key and the balance only, so the row has these two columns. A session
  works on \<open>pending\<close>, the state its open transaction sees; \<open>commit\<close> makes it the
  committed state and \<open>rollback\<close> discards it. A statement that the database refuses
  aborts the transaction, and a failed \<open>flush\<close> rolls the session back: after either,
  nothing of what was pending can be committed, so the session is the rolled back one.
\<close>

record User =
  usr_id :: uuid
  balance :: decimal

record db =
  users :: "User list"
  tasks :: "Task list"
  transactions :: "Transaction list"

record session =
  committed :: db
  pending :: db

definition new_session :: "db \<Rightarrow> session" where
  "new_session d = \<lparr>committed = d, pending = d\<rparr>"

definition commit :: "session \<Rightarrow> session" where
  "commit s = s\<lparr>committed := pending s\<rparr>"

definition rollback :: "session \<Rightarrow> session" where
  "rollback s = s\<lparr>pending := committed s\<rparr>"

subsection \<open>UserRepository\<close>

text \<open>
  \<open>update_balance_atomic\<close> is one \<open>UPDATE ... RETURNING balance\<close> statement: for a
  negative amount the \<open>WHERE\<close> clause also asks \<open>balance >= abs(amount)\<close>. The new
  balance of a matching row is \<open>balance + amount\<close> as the column takes it; when the
  column refuses it for a matching row, the statement raises. \<open>fetchone()\<close> is the
  first returned row, or \<open>None\<close> when no row matched.
\<close>

definition balance_where :: "uuid \<Rightarrow> decimal \<Rightarrow> User \<Rightarrow> bool" where
  "balance_where uid amt u =
     (if amt < 0 then usr_id u = uid \<and> balance u \<ge> \<bar>amt\<bar> else usr_id u = uid)"

definition update_balance_atomic ::
  "uuid \<Rightarrow> decimal \<Rightarrow> session \<Rightarrow> (error + decimal option) \<times> session" where
  "update_balance_atomic uid amt s =
     (let rows = users (pending s);
          matching = filter (balance_where uid amt) rows
      in if list_ex (\<lambda>u. numeric_12_4 (balance u + amt) = Inl DataError) matching
         then (Inl DataError, rollback s)
         else (let rows' = map (\<lambda>u. if balance_where uid amt u
                                     then u\<lparr>balance := quantize (balance u + amt)\<rparr> else u) rows;
                   returning = map (\<lambda>u. quantize (balance u + amt)) matching;
                   s' = s\<lparr>pending := (pending s)\<lparr>users := rows'\<rparr>\<rparr>
               in case returning of
                    [] \<Rightarrow> (Inr None, s')
                  | row # _ \<Rightarrow> (Inr (Some row), s')))"

subsection \<open>TaskRepository\<close>

definition get_by_id :: "uuid \<Rightarrow> session \<Rightarrow> Task option" where
  "get_by_id tid s = find (\<lambda>t. task_id t = tid) (tasks (pending s))"

definition get_by_id_and_user :: "uuid \<Rightarrow> uuid \<Rightarrow> session \<Rightarrow> Task option" where
  "get_by_id_and_user tid uid s =
     find (\<lambda>t. task_id t = tid \<and> task_user_id t = uid) (tasks (pending s))"

text \<open>
  \<open>update_status\<close> builds the dictionary of new column values and runs
  \<open>UPDATE tasks SET ... WHERE id = task_id\<close>; the result is \<open>rowcount > 0\<close>. A new
  cost is a constant of the statement: it is cast to the column, or refused, before
  any row is looked at.
\<close>

definition cost_value :: "decimal option \<Rightarrow> error + decimal option" where
  "cost_value cst =
     (case cst of
        None \<Rightarrow> Inr None
      | Some v \<Rightarrow> (case numeric_12_4 v of Inl e \<Rightarrow> Inl e | Inr c \<Rightarrow> Inr (Some c)))"

definition status_values ::
  "datetime \<Rightarrow> TaskStatus \<Rightarrow> string option \<Rightarrow> decimal option \<Rightarrow> string option \<Rightarrow> string option
   \<Rightarrow> Task \<Rightarrow> Task" where
  "status_values now st tok cst ecode edesc t =
     t\<lparr>status := st,
       started_at := (if st = PROCESSING then Some now else started_at t),
       completed_at := (if st = READY \<or> st = FAILED then Some now else completed_at t),
       token := (case tok of None \<Rightarrow> token t | Some v \<Rightarrow> Some v),
       cost := (case cst of None \<Rightarrow> cost t | Some v \<Rightarrow> v),
       error_code := (case ecode of None \<Rightarrow> error_code t | Some v \<Rightarrow> Some v),
       error_desc := (case edesc of None \<Rightarrow> error_desc t | Some v \<Rightarrow> Some v)\<rparr>"

definition update_status ::
  "datetime \<Rightarrow> uuid \<Rightarrow> TaskStatus \<Rightarrow> string option \<Rightarrow> decimal option \<Rightarrow> string option
   \<Rightarrow> string option \<Rightarrow> session \<Rightarrow> (error + bool) \<times> session" where
  "update_status now tid st tok cst ecode edesc s =
     (case cost_value cst of
        Inl e \<Rightarrow> (Inl e, rollback s)
      | Inr c \<Rightarrow>
          (let rows = tasks (pending s);
               rows' = map (\<lambda>t. if task_id t = tid then status_values now st tok c ecode edesc t
                                 else t) rows
           in (Inr (list_ex (\<lambda>t. task_id t = tid) rows),
               s\<lparr>pending := (pending s)\<lparr>tasks := rows'\<rparr>\<rparr>)))"

subsection \<open>TransactionRepository\<close>

text \<open>
  \<open>session.flush()\<close> sends the \<open>INSERT\<close>. The row is the entity with \<open>amount\<close> and
  \<open>balance_after\<close> as their columns take them (\<open>DataError\<close> when one is refused).
  The database refuses the row with \<open>IntegrityError\<close> when the primary key is taken,
  when a row with the same \<open>(reference_id, reference_type)\<close> exists
  (\<open>uq_transactions_ref\<close>), or when \<open>user_id\<close> names no row of \<open>users\<close> (the foreign
  key). The result of a successful \<open>flush\<close> is the row as stored.
\<close>

definition violates_constraints :: "Transaction \<Rightarrow> db \<Rightarrow> bool" where
  "violates_constraints t d =
     (list_ex (\<lambda>r. tx_id r = tx_id t) (transactions d)
      \<or> list_ex (\<lambda>r. reference_id r = reference_id t \<and> reference_type r = reference_type t)
           (transactions d)
      \<or> \<not> list_ex (\<lambda>u. usr_id u = tx_user_id t) (users d))"

definition inserted_row :: "Transaction \<Rightarrow> Transaction" where
  "inserted_row t = t\<lparr>amount := quantize (amount t), balance_after := quantize (balance_after t)\<rparr>"

definition flush_insert :: "Transaction \<Rightarrow> session \<Rightarrow> (error + Transaction) \<times> session" where
  "flush_insert t s =
     (if numeric_12_4 (amount t) = Inl DataError \<or> numeric_12_4 (balance_after t) = Inl DataError
      then (Inl DataError, rollback s)
      else if violates_constraints t (pending s) then (Inl IntegrityError, rollback s)
      else (Inr (inserted_row t),
            s\<lparr>pending := (pending s)\<lparr>transactions := transactions (pending s) @ [inserted_row t]\<rparr>\<rparr>))"

text \<open>
  \<open>save\<close> flushes and returns the refreshed row. \<open>save_idempotent\<close> catches
  \<open>IntegrityError\<close> only, rolls back and answers \<open>False\<close>; any other error is raised.
\<close>

definition save :: "Transaction \<Rightarrow> session \<Rightarrow> (error + Transaction) \<times> session" where
  "save t s = flush_insert t s"

definition save_idempotent :: "Transaction \<Rightarrow> session \<Rightarrow> (error + bool) \<times> session" where
  "save_idempotent t s =
     (case flush_insert t s of
        (Inr _, s') \<Rightarrow> (Inr True, s')
      | (Inl IntegrityError, s') \<Rightarrow> (Inr False, rollback s')
      | (Inl e, s') \<Rightarrow> (Inl e, s'))"

section \<open>BillingService\<close>

text \<open>\<open>description or default\<close>: Python takes the default for \<open>None\<close> and for the empty string.\<close>

definition description_or :: "string option \<Rightarrow> string \<Rightarrow> string option" where
  "description_or descr dflt =
     (case descr of None \<Rightarrow> Some dflt | Some d \<Rightarrow> if d = [] then Some dflt else Some d)"

definition deduct_balance ::
  "uuid \<Rightarrow> datetime \<Rightarrow> uuid \<Rightarrow> decimal \<Rightarrow> string \<Rightarrow> string option \<Rightarrow> bool \<Rightarrow> session
   \<Rightarrow> (error + decimal) \<times> session" where
  "deduct_balance new_id now uid amt tid descr auto_commit s =
     (case update_balance_atomic uid (- \<bar>amt\<bar>) s of
        (Inl e, s1) \<Rightarrow> (Inl e, s1)
      | (Inr None, s1) \<Rightarrow> (Inl (InsufficientBalanceError (to_double amt) 0), s1)
      | (Inr (Some new_balance), s1) \<Rightarrow>
          (let transaction = create_deduct new_id now uid amt new_balance tid
                 (description_or descr (''Task '' @ take 8 tid @ ''...''))
           in case save transaction s1 of
                (Inl e, s2) \<Rightarrow> (Inl e, s2)
              | (Inr _, s2) \<Rightarrow> (Inr new_balance, if auto_commit then commit s2 else s2)))"

definition refund ::
  "uuid \<Rightarrow> datetime \<Rightarrow> uuid \<Rightarrow> decimal \<Rightarrow> string \<Rightarrow> string option \<Rightarrow> session
   \<Rightarrow> (error + decimal) \<times> session" where
  "refund new_id now uid amt tid descr s =
     (let transaction = create_refund new_id now uid amt 0 tid
            (description_or descr (''Refund for task '' @ take 8 tid @ ''...''))
      in case save_idempotent transaction s of
           (Inl e, s1) \<Rightarrow> (Inl e, s1)
         | (Inr False, s1) \<Rightarrow> (Inl (RefundAlreadyProcessedError tid), s1)
         | (Inr True, s1) \<Rightarrow>
             (case update_balance_atomic uid \<bar>amt\<bar> s1 of
                (Inl e, s2) \<Rightarrow> (Inl e, s2)
              | (Inr None, s2) \<Rightarrow> (Inl (ValueError (''User not found: '' @ uid)), rollback s2)
              | (Inr (Some new_balance), s2) \<Rightarrow> (Inr new_balance, commit s2)))"

definition deposit ::
  "uuid \<Rightarrow> datetime \<Rightarrow> uuid \<Rightarrow> decimal \<Rightarrow> string \<Rightarrow> string option \<Rightarrow> session
   \<Rightarrow> (error + decimal) \<times> session" where
  "deposit new_id now uid amt payment_id descr s =
     (case update_balance_atomic uid \<bar>amt\<bar> s of
        (Inl e, s1) \<Rightarrow> (Inl e, s1)
      | (Inr None, s1) \<Rightarrow> (Inl (ValueError (''User not found: '' @ uid)), s1)
      | (Inr (Some new_balance), s1) \<Rightarrow>
          (let transaction = create_deposit new_id now uid amt new_balance payment_id
                 (description_or descr (''Deposit from payment '' @ take 8 payment_id @ ''...''))
           in case save transaction s1 of
                (Inl e, s2) \<Rightarrow> (Inl e, s2)
              | (Inr _, s2) \<Rightarrow> (Inr new_balance, commit s2)))"

section \<open>TaskService\<close>

definition get_task :: "uuid \<Rightarrow> uuid \<Rightarrow> session \<Rightarrow> error + Task" where
  "get_task tid uid s =
     (case get_by_id_and_user tid uid s of
        None \<Rightarrow> Inl (EntityNotFoundError ''Task'' tid)
      | Some task \<Rightarrow> Inr task)"

definition get_task_by_id :: "uuid \<Rightarrow> session \<Rightarrow> error + Task" where
  "get_task_by_id tid s =
     (case get_by_id tid s of
        None \<Rightarrow> Inl (EntityNotFoundError ''Task'' tid)
      | Some task \<Rightarrow> Inr task)"

definition start_processing :: "datetime \<Rightarrow> uuid \<Rightarrow> session \<Rightarrow> (error + bool) \<times> session" where
  "start_processing now tid s =
     (case update_status now tid PROCESSING None None None None s of
        (Inl e, s1) \<Rightarrow> (Inl e, s1)
      | (Inr result, s1) \<Rightarrow> (Inr result, commit s1))"

text \<open>
  \<open>complete_task\<close>: the price is \<open>Decimal(str(settings.price_per_task))\<close>, an argument
  here. \<open>new_id\<close> and \<open>now_tx\<close> are the \<open>uuid4()\<close> and the clock reading of the
  transaction, \<open>now_upd\<close> the clock reading of \<open>update_status\<close>. Any exception inside
  the \<open>try\<close> rolls the session back and is raised again.
\<close>

definition complete_task ::
  "uuid \<Rightarrow> datetime \<Rightarrow> datetime \<Rightarrow> decimal \<Rightarrow> uuid \<Rightarrow> string \<Rightarrow> session
   \<Rightarrow> (error + Task) \<times> session" where
  "complete_task new_id now_tx now_upd price tid tok s =
     (case get_by_id tid s of
        None \<Rightarrow> (Inl (EntityNotFoundError ''Task'' tid), s)
      | Some task \<Rightarrow>
          (case deduct_balance new_id now_tx (task_user_id task) price (task_id task) None False s of
             (Inl e, s1) \<Rightarrow> (Inl e, rollback s1)
           | (Inr _, s1) \<Rightarrow>
               (case update_status now_upd tid READY (Some tok) (Some price) None None s1 of
                  (Inl e, s2) \<Rightarrow> (Inl e, rollback s2)
                | (Inr _, s2) \<Rightarrow> (get_task_by_id tid (commit s2), commit s2))))"

definition fail_task ::
  "datetime \<Rightarrow> uuid \<Rightarrow> string \<Rightarrow> string option \<Rightarrow> session \<Rightarrow> (error + Task) \<times> session" where
  "fail_task now tid ecode edesc s =
     (case update_status now tid FAILED None None (Some ecode) edesc s of
        (Inl e, s1) \<Rightarrow> (Inl e, s1)
      | (Inr _, s1) \<Rightarrow> (get_task_by_id tid (commit s1), commit s1))"

text \<open>
  \<open>refund_task\<close> answers with a boolean; \<open>except Exception: return False\<close> turns every
  exception of \<open>BillingService.refund\<close> into \<open>False\<close>. Only the lookup of the task,
  which is outside the \<open>try\<close>, can raise.
\<close>

definition refund_task ::
  "uuid \<Rightarrow> datetime \<Rightarrow> uuid \<Rightarrow> uuid \<Rightarrow> session \<Rightarrow> (error + bool) \<times> session" where
  "refund_task new_id now tid uid s =
     (case get_task tid uid s of
        Inl e \<Rightarrow> (Inl e, s)
      | Inr task \<Rightarrow>
          if status task \<noteq> READY then (Inr False, s)
          else if cost task \<le> 0 then (Inr False, s)
          else (case refund new_id now uid (cost task) tid None s of
                  (Inr _, s1) \<Rightarrow> (Inr True, s1)
                | (Inl _, s1) \<Rightarrow> (Inr False, s1)))"

text \<open>
  The route \<open>report_incorrect\<close> (routes/task.py), after the rate limit and the
  authentication: the body of the response it builds from the outcome of
  \<open>refund_task\<close>. \<open>NO_SUCH_TASK\<close> is 12 and \<open>INTERNAL_ERROR\<close> is 99.
\<close>

record ReportIncorrectResponse =
  errorId :: int
  response_status :: "string option"

definition report_incorrect ::
  "uuid \<Rightarrow> datetime \<Rightarrow> uuid \<Rightarrow> uuid \<Rightarrow> session \<Rightarrow> ReportIncorrectResponse \<times> session" where
  "report_incorrect new_id now tid uid s =
     (case refund_task new_id now tid uid s of
        (Inr success, s1) \<Rightarrow>
          (\<lparr>errorId = 0,
            response_status = Some (if success then ''success'' else ''already_refunded'')\<rparr>, s1)
      | (Inl (EntityNotFoundError _ _), s1) \<Rightarrow> (\<lparr>errorId = 12, response_status = None\<rparr>, s1)
      | (Inl _, s1) \<Rightarrow> (\<lparr>errorId = 99, response_status = None\<rparr>, s1))"

section \<open>RateLimiter\<close>















section \<open>Requests against the committed database\<close>

text \<open>
  Every API request and every worker job opens a session of its own on the committed
  database, and what it leaves behind is what it committed. Concurrent callers are
  modelled as a sequence of such requests in any order.
\<close>

datatype request =
    StartProcessing datetime uuid
  | CompleteTask uuid datetime datetime decimal uuid string
  | FailTask datetime uuid string "string option"
  | RefundTask uuid datetime uuid uuid
  | Deposit uuid datetime uuid decimal string "string option"

fun handle :: "request \<Rightarrow> db \<Rightarrow> db" where
  "handle (StartProcessing now tid) d =
     committed (snd (start_processing now tid (new_session d)))"
| "handle (CompleteTask new_id now_tx now_upd price tid tok) d =
     committed (snd (complete_task new_id now_tx now_upd price tid tok (new_session d)))"
| "handle (FailTask now tid ecode edesc) d =
     committed (snd (fail_task now tid ecode edesc (new_session d)))"
| "handle (RefundTask new_id now tid uid) d =
     committed (snd (refund_task new_id now tid uid (new_session d)))"
| "handle (Deposit new_id now uid amt payment_id descr) d =
     committed (snd (deposit new_id now uid amt payment_id descr (new_session d)))"

definition serve :: "request list \<Rightarrow> db \<Rightarrow> db" where
  "serve reqs d = fold handle reqs d"


text \<open>
  Any number of refund requests for one task, each in a session of its own: the
  \<open>uuid4()\<close> and the clock reading of each call are given, the outcomes are collected.
\<close>

fun refund_requests :: "(uuid \<times> datetime) list \<Rightarrow> uuid \<Rightarrow> uuid \<Rightarrow> db \<Rightarrow> (error + bool) list \<times> db" where
  "refund_requests [] tid uid d = ([], d)"
| "refund_requests (c # cs) tid uid d =
     (case refund_task (fst c) (snd c) tid uid (new_session d) of
        (r, s) \<Rightarrow>
          (case refund_requests cs tid uid (committed s) of
             (rs, d') \<Rightarrow> (r # rs, d')))"

definition refunded :: "string \<Rightarrow> db \<Rightarrow> bool" where
  "refunded tid d =
     list_ex (\<lambda>r. reference_id r = tid \<and> reference_type r = ''TASK_REFUND'') (transactions d)"

definition credit :: "uuid \<Rightarrow> decimal \<Rightarrow> User list \<Rightarrow> User list" where
  "credit uid amt rows =
     map (\<lambda>u. if usr_id u = uid then u\<lparr>balance := quantize (balance u + amt)\<rparr> else u) rows"

section \<open>Invariants\<close>


text \<open>
  The idempotency key of a ledger row, the unique constraint on it, and the reference
  kind that goes with each kind of transaction the constructors build.
\<close>

definition reference :: "Transaction \<Rightarrow> string \<times> string" where
  "reference t = (reference_id t, reference_type t)"

definition kind_ok :: "Transaction \<Rightarrow> bool" where
  "kind_ok t =
     (case tx_type t of
        DEDUCT \<Rightarrow> reference_type t = ''TASK''
      | REFUND \<Rightarrow> reference_type t = ''TASK_REFUND''
      | DEPOSIT \<Rightarrow> reference_type t = ''PAYMENT''
      | BONUS \<Rightarrow> True)"

definition ledger_ok :: "db \<Rightarrow> bool" where
  "ledger_ok d = (distinct (map reference (transactions d)) \<and> list_all kind_ok (transactions d))"

definition deducts_of :: "string \<Rightarrow> db \<Rightarrow> Transaction list" where
  "deducts_of j d = filter (\<lambda>t. tx_type t = DEDUCT \<and> reference_id t = j) (transactions d)"

definition refunds_of :: "string \<Rightarrow> db \<Rightarrow> Transaction list" where
  "refunds_of j d = filter (\<lambda>t. tx_type t = REFUND \<and> reference_id t = j) (transactions d)"

section \<open>Sample data\<close>

text \<open>
  One account \<open>A\<close> and one task \<open>J\<close> of that account, for the concrete runs below, and
  the two requests of the scenarios: completing \<open>J\<close> at price 10 and asking for its
  refund.
\<close>

definition sample_task :: "TaskStatus \<Rightarrow> decimal \<Rightarrow> Task" where
  "sample_task st c =
     \<lparr>task_id = ''J'', task_user_id = ''A'', task_type = RECAPTCHA_V2, status = st,
      website_url = None, website_key = ''k'', website_domain = None, is_enterprise = False,
      token = None, cost = c, error_code = None, error_desc = None, retry_count = 0,
      task_created_at = 0, started_at = None, completed_at = None\<rparr>"

definition sample_db :: "decimal \<Rightarrow> TaskStatus \<Rightarrow> decimal \<Rightarrow> db" where
  "sample_db bal st c =
     \<lparr>users = [\<lparr>usr_id = ''A'', balance = bal\<rparr>], tasks = [sample_task st c], transactions = []\<rparr>"

definition complete_J :: "uuid \<Rightarrow> request" where
  "complete_J new_id = CompleteTask new_id 2 3 10 ''J'' ''tok''"

definition refund_J :: "uuid \<Rightarrow> request" where
  "refund_J new_id = RefundTask new_id 4 ''J'' ''A''"

section \<open>Evaluating and rounding numbers\<close>

lemma floor_rat_numeral: "\<lfloor>numeral a / numeral b :: rat\<rfloor> = numeral a div numeral b"
  using floor_divide_of_int_eq [of "numeral a" "numeral b", where ?'a = rat] by simp

lemma floor_rat_half: "\<lfloor>1 / 2 :: rat\<rfloor> = 0"
  by linarith

lemma ceiling_rat_numeral: "\<lceil>numeral a / numeral b :: rat\<rceil> = - (- numeral a div numeral b)"
  using floor_divide_of_int_eq [of "- numeral a" "numeral b", where ?'a = rat]
  by (simp add: ceiling_def)

lemmas number_defs = to_double_def lua_number2str_def round_digits_def exponent_of_def
  round_half_even_def compute_floorlog floor_rat_numeral ceiling_rat_numeral Let_def

text \<open>
  The rounding is to a nearest number of the given precision: \<open>exponent_of\<close> is the
  exponent of the leading digit, and \<open>round_digits\<close> is off by at most half a unit
  of the last digit.
\<close>

lemma round_half_even_error: "\<bar>of_int (round_half_even x) - x\<bar> \<le> 1 / 2"
proof -
  have "of_int \<lfloor>x\<rfloor> \<le> x" "x < of_int \<lfloor>x\<rfloor> + 1" by linarith+
  then show ?thesis
    by (auto simp add: round_half_even_def Let_def)
qed

lemma exponent_of_bounds:
  assumes "1 < b" and "0 < a"
  shows "of_nat b powi exponent_of b a \<le> a \<and> a < of_nat b powi (exponent_of b a + 1)"
proof -
  have b0: "(0 :: rat) < of_nat b" using assms(1) by simp
  show ?thesis
  proof (cases "1 \<le> a")
    case True
    define n where "n = nat \<lfloor>a\<rfloor>"
    have n: "0 < n" "of_nat n \<le> a" "a < of_nat n + 1"
      using True unfolding n_def by (simp_all add: floor_less_iff, linarith+)
    from floorlog_bounds [OF n(1) assms(1)]
    have lo: "b ^ (floorlog b n - 1) \<le> n" and hi: "n < b ^ floorlog b n" by simp_all
    have pos: "0 < floorlog b n"
      using n(1) assms(1) by (simp add: floorlog_eq_zero_iff Suc_le_eq flip: neq0_conv)
    have e: "exponent_of b a = int (floorlog b n - 1)"
      using True pos by (simp add: exponent_of_def n_def of_nat_diff)
    have e1: "exponent_of b a + 1 = int (floorlog b n)"
      using e pos by simp
    define c :: rat where "c = of_nat b ^ (floorlog b n - 1)"
    have "c \<le> of_nat n"
      unfolding c_def using lo by (metis of_nat_le_iff of_nat_power)
    moreover have "of_nat b powi exponent_of b a = c"
      unfolding e c_def by simp
    ultimately have low: "of_nat b powi exponent_of b a \<le> a"
      using n(2) by simp
    have "n + 1 \<le> b ^ floorlog b n" using hi by simp
    then have "(of_nat n :: rat) + 1 \<le> of_nat b ^ floorlog b n"
      by (metis of_nat_le_iff of_nat_power of_nat_add of_nat_1)
    with n(3) have "a < of_nat b powi (exponent_of b a + 1)"
      unfolding e1 by simp
    with low show ?thesis ..
  next
    case False
    define m where "m = nat (\<lceil>1 / a\<rceil> - 1)"
    have big: "1 < 1 / a" using False assms(2) by simp
    then have c: "2 \<le> \<lceil>1 / a\<rceil>" by linarith
    have m: "0 < m" "of_nat m < 1 / a" "1 / a \<le> of_nat m + 1"
      using c unfolding m_def by (simp_all, linarith+)
    from floorlog_bounds [OF m(1) assms(1)]
    have lo: "b ^ (floorlog b m - 1) \<le> m" and hi: "m < b ^ floorlog b m" by simp_all
    have pos: "0 < floorlog b m"
      using m(1) assms(1) by (simp add: floorlog_eq_zero_iff Suc_le_eq flip: neq0_conv)
    have e: "exponent_of b a = - int (floorlog b m)"
      using False by (simp add: exponent_of_def m_def)
    have e1: "exponent_of b a + 1 = - int (floorlog b m - 1)"
      using e pos by (simp add: of_nat_diff)
    have "m + 1 \<le> b ^ floorlog b m" using hi by simp
    then have "(of_nat m :: rat) + 1 \<le> of_nat b ^ floorlog b m"
      by (metis of_nat_le_iff of_nat_power of_nat_add of_nat_1)
    with m(3) have "1 / a \<le> of_nat b ^ floorlog b m" by simp
    then have "1 / of_nat b ^ floorlog b m \<le> a"
      using assms(2) b0 by (simp add: field_simps)
    then have low: "of_nat b powi exponent_of b a \<le> a"
      unfolding e by (simp add: power_int_minus_divide)
    have "(of_nat b :: rat) ^ (floorlog b m - 1) \<le> of_nat m"
      using lo by (metis of_nat_le_iff of_nat_power)
    from order_le_less_trans [OF this m(2)]
    have "of_nat b ^ (floorlog b m - 1) < 1 / a" .
    then have "a < 1 / of_nat b ^ (floorlog b m - 1)"
      using assms(2) b0 by (simp add: field_simps)
    then have "a < of_nat b powi (exponent_of b a + 1)"
      unfolding e1 by (simp add: power_int_minus_divide)
    with low show ?thesis ..
  qed
qed

lemma round_digits_error:
  assumes "x \<noteq> 0"
    and "0 < b"
  shows "\<bar>round_digits b n x - x\<bar> \<le> of_nat b powi (exponent_of b \<bar>x\<bar> - (int n - 1)) / 2"
proof -
  define u :: rat where "u = of_nat b powi (exponent_of b \<bar>x\<bar> - (int n - 1))"
  have u: "0 < u" unfolding u_def using assms(2) by simp
  define y where "y = \<bar>x\<bar> / u"
  have r: "round_digits b n x = sgn x * of_int (round_half_even y) * u"
    using assms(1) by (simp add: round_digits_def u_def y_def Let_def)
  have x: "x = sgn x * (y * u)"
    using u by (simp add: y_def sgn_mult_abs)
  have "round_digits b n x - x = sgn x * ((of_int (round_half_even y) - y) * u)"
    unfolding r by (subst (2) x) (simp add: algebra_simps)
  then have "\<bar>round_digits b n x - x\<bar> = \<bar>of_int (round_half_even y) - y\<bar> * u"
    using assms(1) u by (simp add: abs_mult abs_sgn_eq)
  also have "\<dots> \<le> 1 / 2 * u"
    using round_half_even_error [of y] u by (intro mult_right_mono) simp_all
  finally show ?thesis
    by (simp add: u_def)
qed

section \<open>Values of the \<open>Numeric(12, 4)\<close> columns\<close>

lemmas money_defs = quantize_def numeric_12_4_def stored_def floor_rat_numeral floor_rat_half

lemma quantize_nonneg: "0 \<le> x \<Longrightarrow> 0 \<le> quantize x"
  by (simp add: quantize_def)

lemma quantize_minus: "quantize (- x) = - quantize x"
proof -
  have "\<lfloor>1 / 2 :: rat\<rfloor> = 0" by linarith
  then show ?thesis
    by (cases "x = 0") (auto simp add: quantize_def)
qed




lemma quantize_abs: "quantize \<bar>x\<bar> = \<bar>quantize x\<bar>"
proof (cases "0 \<le> x")
  case True
  then show ?thesis using quantize_nonneg [of x] by simp
next
  case False
  then have "0 \<le> quantize (- x)" by (intro quantize_nonneg) simp
  with False show ?thesis by (simp add: quantize_minus)
qed


lemma numeric_12_4_Inl: "(numeric_12_4 x = Inl e) = (e = DataError \<and> 100000000 \<le> \<bar>quantize x\<bar>)"
  by (auto simp add: numeric_12_4_def)

lemma numeric_12_4_Inr: "(numeric_12_4 x = Inr y) = (y = quantize x \<and> \<bar>quantize x\<bar> < 100000000)"
  by (auto simp add: numeric_12_4_def)



section \<open>Effects of the repository operations\<close>

lemma fetchone_find:
  "(case map f (filter P xs) of [] \<Rightarrow> None | r # _ \<Rightarrow> Some r) = map_option f (find P xs)"
  by (induction xs) auto

lemma uba_eq:
  "(update_balance_atomic uid amt s = (r, s1)) =
     (if list_ex (\<lambda>u. numeric_12_4 (balance u + amt) = Inl DataError)
           (filter (balance_where uid amt) (users (pending s)))
      then r = Inl DataError \<and> s1 = rollback s
      else r = Inr (map_option (\<lambda>u. quantize (balance u + amt))
                      (find (balance_where uid amt) (users (pending s))))
           \<and> s1 = s\<lparr>pending := (pending s)\<lparr>users :=
                map (\<lambda>u. if balance_where uid amt u then u\<lparr>balance := quantize (balance u + amt)\<rparr>
                         else u)
                  (users (pending s))\<rparr>\<rparr>)"
  by (auto simp add: update_balance_atomic_def Let_def fetchone_find [symmetric] split: list.splits)



lemma us_eq:
  "(update_status now tid st tok cst ecode edesc s = (r, s1)) =
     (case cost_value cst of
        Inl e \<Rightarrow> r = Inl e \<and> s1 = rollback s
      | Inr c \<Rightarrow>
          r = Inr (list_ex (\<lambda>t. task_id t = tid) (tasks (pending s)))
          \<and> s1 = s\<lparr>pending := (pending s)\<lparr>tasks :=
               map (\<lambda>t. if task_id t = tid then status_values now st tok c ecode edesc t else t)
                 (tasks (pending s))\<rparr>\<rparr>)"
  by (auto simp: update_status_def Let_def split: sum.splits)

lemma cost_value_None [simp]: "cost_value None = Inr None"
  by (simp add: cost_value_def)

lemma save_eq:
  "(save t s = (r, s1)) =
     (if numeric_12_4 (amount t) = Inl DataError \<or> numeric_12_4 (balance_after t) = Inl DataError
      then r = Inl DataError \<and> s1 = rollback s
      else if violates_constraints t (pending s) then r = Inl IntegrityError \<and> s1 = rollback s
      else r = Inr (inserted_row t)
           \<and> s1 = s\<lparr>pending := (pending s)\<lparr>transactions :=
                transactions (pending s) @ [inserted_row t]\<rparr>\<rparr>)"
  by (auto simp: save_def flush_insert_def)

lemma rollback_rollback [simp]: "rollback (rollback s) = rollback s"
  by (simp add: rollback_def)

lemma save_idempotent_eq:
  "(save_idempotent t s = (r, s1)) =
     (if numeric_12_4 (amount t) = Inl DataError \<or> numeric_12_4 (balance_after t) = Inl DataError
      then r = Inl DataError \<and> s1 = rollback s
      else if violates_constraints t (pending s) then r = Inr False \<and> s1 = rollback s
      else r = Inr True
           \<and> s1 = s\<lparr>pending := (pending s)\<lparr>transactions :=
                transactions (pending s) @ [inserted_row t]\<rparr>\<rparr>)"
  by (auto simp: save_idempotent_def flush_insert_def)








lemma kind_ok_constructors:
  "kind_ok (inserted_row (create_deduct i n u a b j dsc))"
  "kind_ok (inserted_row (create_refund i n u a b j dsc))"
  "kind_ok (inserted_row (create_deposit i n u a b j dsc))"
  by (simp_all add: kind_ok_def inserted_row_def create_deduct_def create_refund_def create_deposit_def)

lemma reference_inserted_row [simp]: "reference (inserted_row t) = reference t"
  by (simp add: reference_def inserted_row_def)

lemma violates_reference:
  "\<not> violates_constraints t d \<Longrightarrow> reference t \<notin> reference ` set (transactions d)"
  by (auto simp: violates_constraints_def list_ex_iff reference_def)

lemma uba_ledger:
  "update_balance_atomic uid amt s = (r, s') \<Longrightarrow>
   ledger_ok (committed s) \<Longrightarrow> ledger_ok (pending s) \<Longrightarrow>
   ledger_ok (committed s') \<and> ledger_ok (pending s')"
  by (auto simp: uba_eq rollback_def ledger_ok_def split: if_splits)

lemma deduct_balance_ledger:
  "deduct_balance i n uid amt tid descr ac s = (r, s') \<Longrightarrow>
   ledger_ok (committed s) \<Longrightarrow> ledger_ok (pending s) \<Longrightarrow>
   ledger_ok (committed s') \<and> ledger_ok (pending s')"
proof -
  assume a: "deduct_balance i n uid amt tid descr ac s = (r, s')"
    and b: "ledger_ok (committed s)" "ledger_ok (pending s)"
  obtain r1 s1 where u: "update_balance_atomic uid (- \<bar>amt\<bar>) s = (r1, s1)"
    by (cases "update_balance_atomic uid (- \<bar>amt\<bar>) s")
  from uba_ledger [OF u b] have s1: "ledger_ok (committed s1)" "ledger_ok (pending s1)"
    by simp_all
  from a u s1 show ?thesis
    by (auto simp: deduct_balance_def save_eq commit_def rollback_def ledger_ok_def Let_def
          kind_ok_constructors
        dest!: violates_reference
        split: prod.splits option.splits sum.splits if_splits)
qed

lemma refund_ledger:
  "refund i n uid amt tid descr s = (r, s') \<Longrightarrow>
   ledger_ok (committed s) \<Longrightarrow> ledger_ok (pending s) \<Longrightarrow>
   ledger_ok (committed s') \<and> ledger_ok (pending s')"
proof -
  assume a: "refund i n uid amt tid descr s = (r, s')"
    and b: "ledger_ok (committed s)" "ledger_ok (pending s)"
  let ?tx = "create_refund i n uid amt 0 tid
      (description_or descr (''Refund for task '' @ take 8 tid @ ''...''))"
  obtain r1 s1 where si: "save_idempotent ?tx s = (r1, s1)"
    by (cases "save_idempotent ?tx s")
  then have s1: "ledger_ok (committed s1) \<and> ledger_ok (pending s1)"
    using b
    by (auto simp: save_idempotent_eq rollback_def ledger_ok_def kind_ok_constructors
        dest!: violates_reference split: if_splits)
  obtain r2 s2 where u: "update_balance_atomic uid \<bar>amt\<bar> s1 = (r2, s2)"
    by (cases "update_balance_atomic uid \<bar>amt\<bar> s1")
  from uba_ledger [OF u] s1
  have s2: "ledger_ok (committed s2)" "ledger_ok (pending s2)" by simp_all
  from a si u s1 s2 show ?thesis
    by (auto simp: refund_def Let_def commit_def rollback_def
        split: sum.splits bool.splits option.splits)
qed

lemma deposit_ledger:
  "deposit i n uid amt pid descr s = (r, s') \<Longrightarrow>
   ledger_ok (committed s) \<Longrightarrow> ledger_ok (pending s) \<Longrightarrow>
   ledger_ok (committed s') \<and> ledger_ok (pending s')"
proof -
  assume a: "deposit i n uid amt pid descr s = (r, s')"
    and b: "ledger_ok (committed s)" "ledger_ok (pending s)"
  obtain r1 s1 where u: "update_balance_atomic uid \<bar>amt\<bar> s = (r1, s1)"
    by (cases "update_balance_atomic uid \<bar>amt\<bar> s")
  from uba_ledger [OF u b] have s1: "ledger_ok (committed s1)" "ledger_ok (pending s1)"
    by simp_all
  from a u s1 show ?thesis
    by (auto simp: deposit_def save_eq commit_def rollback_def ledger_ok_def Let_def
          kind_ok_constructors
        dest!: violates_reference
        split: prod.splits option.splits sum.splits if_splits)
qed

lemma complete_task_ledger:
  "complete_task i n1 n2 price tid tok s = (r, s') \<Longrightarrow>
   ledger_ok (committed s) \<Longrightarrow> ledger_ok (pending s) \<Longrightarrow>
   ledger_ok (committed s') \<and> ledger_ok (pending s')"
  by (auto simp: complete_task_def us_eq commit_def rollback_def ledger_ok_def
      dest!: deduct_balance_ledger
      split: prod.splits option.splits sum.splits if_splits)

lemma refund_task_ledger:
  "refund_task i n tid uid s = (r, s') \<Longrightarrow>
   ledger_ok (committed s) \<Longrightarrow> ledger_ok (pending s) \<Longrightarrow>
   ledger_ok (committed s') \<and> ledger_ok (pending s')"
  by (auto simp: refund_task_def
      dest!: refund_ledger
      split: prod.splits option.splits sum.splits if_splits)

lemma handle_ledger: "ledger_ok d \<Longrightarrow> ledger_ok (handle req d)"
proof (cases req)
  case (StartProcessing now tid)
  then show "ledger_ok d \<Longrightarrow> ?thesis"
    by (auto simp add: start_processing_def us_eq commit_def new_session_def ledger_ok_def
        split: prod.splits sum.splits)
next
  case (CompleteTask i n1 n2 price tid tok)
  assume "ledger_ok d"
  then show ?thesis
    using complete_task_ledger [of i n1 n2 price tid tok "new_session d"] CompleteTask
    by (cases "complete_task i n1 n2 price tid tok (new_session d)") (simp add: new_session_def)
next
  case (FailTask now tid ecode edesc)
  then show "ledger_ok d \<Longrightarrow> ?thesis"
    by (auto simp add: fail_task_def us_eq commit_def new_session_def ledger_ok_def
        split: prod.splits sum.splits)
next
  case (RefundTask i n tid uid)
  assume "ledger_ok d"
  then show ?thesis
    using refund_task_ledger [of i n tid uid "new_session d"] RefundTask
    by (cases "refund_task i n tid uid (new_session d)") (simp add: new_session_def)
next
  case (Deposit i n uid amt pid descr)
  assume "ledger_ok d"
  then show ?thesis
    using deposit_ledger [of i n uid amt pid descr "new_session d"] Deposit
    by (cases "deposit i n uid amt pid descr (new_session d)") (simp add: new_session_def)
qed

lemma serve_ledger: "ledger_ok d \<Longrightarrow> ledger_ok (serve reqs d)"
  unfolding serve_def by (induction reqs arbitrary: d) (simp_all add: handle_ledger)

lemma at_most_one_filter:
  "distinct (map f xs) \<Longrightarrow> (\<And>x. x \<in> set xs \<Longrightarrow> P x \<Longrightarrow> f x = k) \<Longrightarrow> length (filter P xs) \<le> 1"
proof (induction xs)
  case Nil
  then show ?case by simp
next
  case (Cons x xs)
  show ?case
  proof (cases "P x")
    case True
    then have k: "f x = k" using Cons.prems(2) by simp
    have "filter P xs = []"
    proof (rule ccontr)
      assume "filter P xs \<noteq> []"
      then obtain y where y: "y \<in> set xs" "P y"
        by (metis filter_False)
      then have "f y = k" using Cons.prems(2) by simp
      with k y(1) have "f x \<in> f ` set xs" by (metis imageI)
      with Cons.prems(1) show False by simp
    qed
    with True show ?thesis by simp
  next
    case False
    with Cons show ?thesis by simp
  qed
qed

lemma ledger_at_most_one:
  assumes "ledger_ok d"
  shows "length (deducts_of j d) \<le> 1" and "length (refunds_of j d) \<le> 1"
proof -
  have "\<And>x. x \<in> set (transactions d) \<Longrightarrow> kind_ok x"
    using assms by (simp add: ledger_ok_def list_all_iff)
  then have k: "\<And>x. x \<in> set (transactions d) \<Longrightarrow> tx_type x = DEDUCT \<Longrightarrow> reference_type x = ''TASK''"
    and k': "\<And>x. x \<in> set (transactions d) \<Longrightarrow> tx_type x = REFUND \<Longrightarrow> reference_type x = ''TASK_REFUND''"
    by (force simp: kind_ok_def)+
  have dist: "distinct (map reference (transactions d))"
    using assms by (simp add: ledger_ok_def)
  show "length (deducts_of j d) \<le> 1"
    unfolding deducts_of_def
    by (rule at_most_one_filter [OF dist, where k = "(j, ''TASK'')"])
       (use k in \<open>auto simp: reference_def\<close>)
  show "length (refunds_of j d) \<le> 1"
    unfolding refunds_of_def
    by (rule at_most_one_filter [OF dist, where k = "(j, ''TASK_REFUND'')"])
       (use k' in \<open>auto simp: reference_def\<close>)
qed

section \<open>Sign normalisation of transaction amounts\<close>

text \<open>
  C10. Whatever sign the caller passes, \<open>create_deduct\<close> builds a transaction of kind
  \<open>DEDUCT\<close> whose amount is minus the absolute value of the argument, which is never
  positive, and \<open>create_refund\<close> and \<open>create_deposit\<close> build transactions of kind
  \<open>REFUND\<close> and \<open>DEPOSIT\<close> whose amount is the absolute value, which is never
  negative. So the kind of a transaction fixes the direction of the change it
  records: the amount of a \<open>DEDUCT\<close> is at most 0, that of a \<open>REFUND\<close> or a \<open>DEPOSIT\<close>
  is at least 0, and the row the ledger stores, whose amount is rounded to 4
  decimals, has the same kind and an amount of the same sign.
\<close>

theorem transaction_amount_sign_normalized:
  "tx_type (create_deduct i n u a b r d) = DEDUCT
   \<and> amount (create_deduct i n u a b r d) = - \<bar>a\<bar>
   \<and> amount (create_deduct i n u a b r d) \<le> 0
   \<and> amount (create_deduct i n u (- a) b r d) = amount (create_deduct i n u a b r d)
   \<and> tx_type (create_refund i n u a b r d) = REFUND
   \<and> amount (create_refund i n u a b r d) = \<bar>a\<bar>
   \<and> 0 \<le> amount (create_refund i n u a b r d)
   \<and> amount (create_refund i n u (- a) b r d) = amount (create_refund i n u a b r d)
   \<and> tx_type (create_deposit i n u a b r d) = DEPOSIT
   \<and> amount (create_deposit i n u a b r d) = \<bar>a\<bar>
   \<and> 0 \<le> amount (create_deposit i n u a b r d)
   \<and> amount (create_deposit i n u (- a) b r d) = amount (create_deposit i n u a b r d)
   \<and> tx_type (inserted_row (create_deduct i n u a b r d)) = DEDUCT
   \<and> amount (inserted_row (create_deduct i n u a b r d)) = - \<bar>quantize a\<bar>
   \<and> tx_type (inserted_row (create_refund i n u a b r d)) = REFUND
   \<and> amount (inserted_row (create_refund i n u a b r d)) = \<bar>quantize a\<bar>
   \<and> tx_type (inserted_row (create_deposit i n u a b r d)) = DEPOSIT
   \<and> amount (inserted_row (create_deposit i n u a b r d)) = \<bar>quantize a\<bar>"
  by (simp add: create_deduct_def create_refund_def create_deposit_def inserted_row_def
      quantize_minus quantize_abs)

section \<open>Evaluating the services on concrete data\<close>

lemmas eval_defs = serve_def complete_J_def refund_J_def sample_db_def sample_task_def
  new_session_def commit_def rollback_def
  complete_task_def refund_task_def fail_task_def start_processing_def deposit_def
  deduct_balance_def refund_def get_task_def get_task_by_id_def get_by_id_def get_by_id_and_user_def
  update_status_def cost_value_def status_values_def update_balance_atomic_def balance_where_def
  save_def save_idempotent_def flush_insert_def inserted_row_def violates_constraints_def
  create_deduct_def create_refund_def create_deposit_def description_or_def Let_def
  quantize_def numeric_12_4_def floor_rat_numeral floor_rat_half

section \<open>One deduction and one refund per task\<close>

text \<open>
  C2. A deduction for task \<open>j\<close> carries the reference \<open>(j, "TASK")\<close> and a refund for it
  the reference \<open>(j, "TASK_REFUND")\<close>, two different keys, and the stored row carries
  the reference of the entity. Of a ledger whose references are pairwise different
  (and whose rows carry the reference kind of their constructor), any number of
  calls of \<open>complete_task\<close>, \<open>refund_task\<close> and the other services, for the same task
  or for others, each in a session of its own and in any order, leaves a ledger of
  the same kind: the pair (reference id, reference kind) stays unique across the
  whole ledger, and the ledger holds at most one \<open>DEDUCT\<close> row and at most one
  \<open>REFUND\<close> row for \<open>j\<close>.
\<close>

theorem ledger_one_deduct_one_refund_per_task:
  "reference (create_deduct i n u a b j dsc) = (j, ''TASK'')
   \<and> reference (create_refund i' n' u' a' b' j dsc') = (j, ''TASK_REFUND'')
   \<and> reference (create_deduct i n u a b j dsc) \<noteq> reference (create_refund i' n' u' a' b' j dsc')
   \<and> reference (inserted_row (create_deduct i n u a b j dsc)) = (j, ''TASK'')
   \<and> reference (inserted_row (create_refund i' n' u' a' b' j dsc')) = (j, ''TASK_REFUND'')
   \<and> (ledger_ok d \<longrightarrow>
        distinct (map reference (transactions (serve reqs d)))
        \<and> ledger_ok (serve reqs d)
        \<and> length (deducts_of j (serve reqs d)) \<le> 1
        \<and> length (refunds_of j (serve reqs d)) \<le> 1)"
proof -
  have "ledger_ok (serve reqs d)" if "ledger_ok d"
    using that by (rule serve_ledger)
  then show ?thesis
    using ledger_at_most_one [of "serve reqs d" j]
    by (auto simp: reference_def create_deduct_def create_refund_def ledger_ok_def inserted_row_def)
qed

text \<open>
  The reference kinds are the strings \<open>"TASK"\<close> and \<open>"TASK_REFUND"\<close>: no transaction
  built for a task carries \<open>"JOB"\<close> or \<open>"JOB_REFUND"\<close>.
\<close>

theorem ledger_reference_kind_counterexample:
  "\<not> (reference (create_deduct ''x1'' 2 ''A'' 10 90 ''J'' None) = (''J'', ''JOB'')
      \<and> reference (create_refund ''x3'' 4 ''A'' 10 0 ''J'' None) = (''J'', ''JOB_REFUND''))"
  by (simp add: reference_def create_deduct_def create_refund_def)

theorem ledger_one_deduct_one_refund_per_task_witness:
  "ledger_ok (sample_db 100 PROCESSING 0)
   \<and> length (deducts_of ''J''
        (serve [complete_J ''x1'', complete_J ''x2'', refund_J ''x3'', refund_J ''x4'']
           (sample_db 100 PROCESSING 0))) \<le> 1
   \<and> length (refunds_of ''J''
        (serve [complete_J ''x1'', complete_J ''x2'', refund_J ''x3'', refund_J ''x4'']
           (sample_db 100 PROCESSING 0))) \<le> 1
   \<and> map (\<lambda>t. (tx_type t, amount t, reference t))
        (transactions
          (serve [complete_J ''x1'', complete_J ''x2'', refund_J ''x3'', refund_J ''x4'']
             (sample_db 100 PROCESSING 0)))
      = [(DEDUCT, - 10, ''J'', ''TASK''), (REFUND, 10, ''J'', ''TASK_REFUND'')]"
proof -
  have ok: "ledger_ok (sample_db 100 PROCESSING 0)"
    by (simp add: ledger_ok_def sample_db_def)
  have run: "map (\<lambda>t. (tx_type t, amount t, reference t))
        (transactions
          (serve [complete_J ''x1'', complete_J ''x2'', refund_J ''x3'', refund_J ''x4'']
             (sample_db 100 PROCESSING 0)))
      = [(DEDUCT, - 10, ''J'', ''TASK''), (REFUND, 10, ''J'', ''TASK_REFUND'')]"
    by (simp add: eval_defs reference_def)
  show ?thesis
    using ok run
      ledger_one_deduct_one_refund_per_task
        [of "''x1''" 2 "''A''" 10 90 "''J''" None "''x3''" 4 "''A''" 10 0 None
            "sample_db 100 PROCESSING 0"
            "[complete_J ''x1'', complete_J ''x2'', refund_J ''x3'', refund_J ''x4'']"]
    by blast
qed

section \<open>Looking up rows\<close>

lemma find_SomeD: "find P xs = Some x \<Longrightarrow> P x \<and> x \<in> set xs"
  by (induction xs) (auto split: if_splits)


lemma task_id_status_values [simp]: "task_id (status_values now st tok cst ecode edesc t) = task_id t"
  by (simp add: status_values_def)


lemma find_first_with_balance:
  "find (\<lambda>u. usr_id u = uid) xs = Some acct \<Longrightarrow> Q acct \<Longrightarrow>
   find (\<lambda>u. usr_id u = uid \<and> Q u) xs = Some acct"
  by (induction xs) (auto split: if_splits)

lemma unique_account:
  "distinct (map usr_id xs) \<Longrightarrow> find (\<lambda>u. usr_id u = uid) xs = Some acct \<Longrightarrow>
   u \<in> set xs \<Longrightarrow> usr_id u = uid \<Longrightarrow> u = acct"
  using find_SomeD [of "\<lambda>u. usr_id u = uid" xs acct] by (auto simp: distinct_map inj_on_def)

lemma find_None_list_ex: "(find P xs = None) = (\<not> list_ex P xs)"
  by (induction xs) auto


lemma map_unique_account:
  assumes "distinct (map usr_id xs)" and "find (\<lambda>u. usr_id u = uid) xs = Some acct"
    and "Q acct"
  shows "map (\<lambda>u. if usr_id u = uid \<and> Q u then f u else u) xs
       = map (\<lambda>u. if usr_id u = uid then f u else u) xs"
proof (rule map_cong [OF refl])
  fix u assume "u \<in> set xs"
  show "(if usr_id u = uid \<and> Q u then f u else u) = (if usr_id u = uid then f u else u)"
  proof (cases "usr_id u = uid")
    case True
    then have "u = acct" using unique_account [OF assms(1,2) \<open>u \<in> set xs\<close>] by simp
    with assms(3) True show ?thesis by simp
  next
    case False
    then show ?thesis by simp
  qed
qed

section \<open>The balance never becomes negative\<close>









section \<open>Completing a task\<close>






text \<open>
  C4. When the balance adjustment of \<open>deduct_balance\<close> reports insufficient funds
  (\<open>update_balance_atomic\<close> returns \<open>None\<close>), \<open>complete_task\<close> raises
  \<open>InsufficientBalanceError\<close>, with the price as a float, and rolls the session back: the committed database is
  the one before the call and nothing is pending, so the task keeps its state, the
  balance is unchanged and no transaction is appended.
\<close>

theorem complete_task_insufficient_balance:
  assumes "get_by_id tid s = Some task"
    and "fst (update_balance_atomic (task_user_id task) (- \<bar>price\<bar>) s) = Inr None"
  shows "complete_task new_id now_tx now_upd price tid tok s
           = (Inl (InsufficientBalanceError (to_double price) 0), rollback s)
         \<and> committed (rollback s) = committed s \<and> pending (rollback s) = committed s"
proof -
  obtain s1 where s1: "update_balance_atomic (task_user_id task) (- \<bar>price\<bar>) s = (Inr None, s1)"
    using assms(2) by (cases "update_balance_atomic (task_user_id task) (- \<bar>price\<bar>) s") simp
  then have "committed s1 = committed s"
    by (auto simp: uba_eq split: if_splits)
  then have "rollback s1 = rollback s"
    by (simp add: rollback_def)
  with s1 assms(1) show ?thesis
    by (simp add: complete_task_def deduct_balance_def rollback_def)
qed

theorem complete_task_insufficient_balance_witness:
  "get_by_id ''J'' (new_session (sample_db 5 PROCESSING 0)) = Some (sample_task PROCESSING 0)
   \<and> fst (update_balance_atomic ''A'' (- \<bar>10\<bar>) (new_session (sample_db 5 PROCESSING 0))) = Inr None
   \<and> complete_task ''x1'' 2 3 10 ''J'' ''tok'' (new_session (sample_db 5 PROCESSING 0)) =
       (Inl (InsufficientBalanceError 10 0), new_session (sample_db 5 PROCESSING 0))
   \<and> map status (tasks (committed (snd
         (complete_task ''x1'' 2 3 10 ''J'' ''tok'' (new_session (sample_db 5 PROCESSING 0))))))
       = [PROCESSING]
   \<and> map balance (users (committed (snd
         (complete_task ''x1'' 2 3 10 ''J'' ''tok'' (new_session (sample_db 5 PROCESSING 0))))))
       = [5]
   \<and> transactions (committed (snd
         (complete_task ''x1'' 2 3 10 ''J'' ''tok'' (new_session (sample_db 5 PROCESSING 0))))) = []"
proof -
  let ?s = "new_session (sample_db 5 PROCESSING 0)"
  have task: "get_by_id ''J'' ?s = Some (sample_task PROCESSING 0)"
    by (simp add: get_by_id_def new_session_def sample_db_def sample_task_def)
  have short: "fst (update_balance_atomic (task_user_id (sample_task PROCESSING 0)) (- \<bar>10\<bar>) ?s) = Inr None"
    by (simp add: eval_defs)
  have same: "rollback ?s = ?s"
    by (simp add: rollback_def new_session_def)
  have float: "to_double \<bar>10\<bar> = 10" "to_double 10 = 10"
    by (simp_all add: number_defs)
  show ?thesis
    using task short complete_task_insufficient_balance [OF task short, of "''x1''" 2 3 "''tok''"]
    by (simp add: same float) (simp add: new_session_def sample_db_def sample_task_def)
qed




section \<open>Refunding a task\<close>

lemma refund_duplicate:
  assumes "refunded tid (pending s)"
  shows "refund i n uid amt tid descr s =
           (Inl (if 100000000 \<le> \<bar>quantize amt\<bar> then DataError
                 else RefundAlreadyProcessedError tid), rollback s)"
proof -
  have "violates_constraints (create_refund i n uid amt 0 tid dsc) (pending s)" for dsc
    using assms by (simp add: violates_constraints_def refunded_def create_refund_def)
  moreover have "numeric_12_4 (balance_after (create_refund i n uid amt 0 tid dsc)) \<noteq> Inl DataError"
    for dsc
    by (simp add: create_refund_def money_defs)
  moreover have "(numeric_12_4 (amount (create_refund i n uid amt 0 tid dsc)) = Inl DataError)
      = (100000000 \<le> \<bar>quantize amt\<bar>)" for dsc
    by (simp add: create_refund_def numeric_12_4_Inl quantize_abs)
  ultimately show ?thesis
    by (simp add: refund_def save_idempotent_eq Let_def split: prod.splits bool.splits sum.splits)
qed

lemma refund_cases:
  assumes "refund i n uid amt tid descr s = (r, s')"
  defines "tx \<equiv> create_refund i n uid amt 0 tid
      (description_or descr (''Refund for task '' @ take 8 tid @ ''...''))"
  shows "(\<exists>e. r = Inl e \<and> s' = rollback s)
       \<or> (\<exists>nb. r = Inr nb \<and> \<not> violates_constraints tx (pending s)
            \<and> committed s' = (pending s)\<lparr>users := credit uid \<bar>amt\<bar> (users (pending s)),
                                         transactions := transactions (pending s) @ [inserted_row tx]\<rparr>
            \<and> pending s' = committed s')"
proof -
  obtain r1 s1 where si: "save_idempotent tx s = (r1, s1)"
    by (cases "save_idempotent tx s")
  show ?thesis
  proof (cases "r1 = Inr True")
    case False
    with si have "s1 = rollback s"
      by (auto simp: save_idempotent_eq split: if_splits)
    with False si assms(1) show ?thesis
      by (cases r1) (auto simp: refund_def tx_def Let_def split: bool.splits)
  next
    case True
    with si have nv: "\<not> violates_constraints tx (pending s)"
      and s1: "s1 = s\<lparr>pending := (pending s)\<lparr>transactions :=
          transactions (pending s) @ [inserted_row tx]\<rparr>\<rparr>"
      by (auto simp: save_idempotent_eq split: if_splits)
    from nv have "list_ex (\<lambda>u. usr_id u = uid) (users (pending s))"
      by (simp add: violates_constraints_def tx_def create_refund_def)
    then have found: "find (\<lambda>u. usr_id u = uid) (users (pending s1)) \<noteq> None"
      by (simp add: find_None_list_ex s1)
    have w: "balance_where uid \<bar>amt\<bar> = (\<lambda>u. usr_id u = uid)"
      by (simp add: balance_where_def fun_eq_iff)
    obtain r2 s2 where u: "update_balance_atomic uid \<bar>amt\<bar> s1 = (r2, s2)"
      by (cases "update_balance_atomic uid \<bar>amt\<bar> s1")
    have eq: "refund i n uid amt tid descr s =
        (case (r2, s2) of
           (Inl e, s2) \<Rightarrow> (Inl e, s2)
         | (Inr None, s2) \<Rightarrow> (Inl (ValueError (''User not found: '' @ uid)), rollback s2)
         | (Inr (Some new_balance), s2) \<Rightarrow> (Inr new_balance, commit s2))"
      using si True u by (simp add: refund_def tx_def Let_def)
    show ?thesis
    proof (cases "list_ex (\<lambda>u. numeric_12_4 (balance u + \<bar>amt\<bar>) = Inl DataError)
        (filter (\<lambda>u. usr_id u = uid) (users (pending s1)))")
      case True
      with u have "r2 = Inl DataError" "s2 = rollback s1"
        by (simp_all add: uba_eq w)
      with eq assms(1) s1 show ?thesis
        by (auto simp: rollback_def)
    next
      case False
      with u found obtain nb where "r2 = Inr (Some nb)"
        and "s2 = s1\<lparr>pending := (pending s1)\<lparr>users :=
            map (\<lambda>u. if usr_id u = uid then u\<lparr>balance := quantize (balance u + \<bar>amt\<bar>)\<rparr> else u)
              (users (pending s1))\<rparr>\<rparr>"
        by (auto simp: uba_eq w)
      with eq assms(1) s1 nv show ?thesis
        by (auto simp: commit_def credit_def)
    qed
  qed
qed

lemma refund_task_fresh:
  assumes "refund_task i n tid uid (new_session d) = (r, s')"
  shows "(r \<noteq> Inr True \<and> s' = new_session d)
       \<or> (r = Inr True \<and> \<not> refunded tid d
            \<and> (\<exists>task. get_by_id_and_user tid uid (new_session d) = Some task
                  \<and> status task = READY \<and> 0 < cost task
                  \<and> s' = new_session
                        (d\<lparr>users := credit uid (cost task) (users d),
                           transactions := transactions d @
                             [inserted_row (create_refund i n uid (cost task) 0 tid
                                (Some (''Refund for task '' @ take 8 tid @ ''...'')))]\<rparr>)))"
proof (cases "get_by_id_and_user tid uid (new_session d)")
  case None
  with assms show ?thesis by (auto simp: refund_task_def get_task_def)
next
  case (Some task)
  show ?thesis
  proof (cases "status task = READY \<and> 0 < cost task")
    case False
    with assms Some show ?thesis
      by (auto simp: refund_task_def get_task_def split: if_splits)
  next
    case True
    obtain r1 s1 where rf: "refund i n uid (cost task) tid None (new_session d) = (r1, s1)"
      by (cases "refund i n uid (cost task) tid None (new_session d)")
    from refund_cases [OF rf] show ?thesis
    proof (elim disjE exE conjE)
      fix e assume "r1 = Inl e" "s1 = rollback (new_session d)"
      with assms Some True rf show ?thesis
        by (auto simp: refund_task_def get_task_def rollback_def new_session_def)
    next
      fix nb
      assume ok: "r1 = Inr nb"
        and nv: "\<not> violates_constraints (create_refund i n uid (cost task) 0 tid
            (description_or None (''Refund for task '' @ take 8 tid @ ''...''))) (pending (new_session d))"
        and c: "committed s1 = (pending (new_session d))
            \<lparr>users := credit uid \<bar>cost task\<bar> (users (pending (new_session d))),
             transactions := transactions (pending (new_session d)) @
               [inserted_row (create_refund i n uid (cost task) 0 tid
                  (description_or None (''Refund for task '' @ take 8 tid @ ''...'')))]\<rparr>"
        and p: "pending s1 = committed s1"
      from nv have "\<not> refunded tid d"
        by (simp add: violates_constraints_def refunded_def create_refund_def new_session_def)
      moreover have "s1 = new_session (committed s1)"
        using p by (cases s1) (simp add: new_session_def)
      ultimately show ?thesis
        using assms Some True rf ok c
        by (auto simp: refund_task_def get_task_def new_session_def description_or_def)
    qed
  qed
qed

lemma refund_task_refunded:
  "refunded tid d \<Longrightarrow> refund_task i n tid uid (new_session d) = (r, s') \<Longrightarrow>
   r \<noteq> Inr True \<and> s' = new_session d"
  using refund_task_fresh [of i n tid uid d r s'] by auto

lemma refund_requests_refunded:
  "refunded tid d \<Longrightarrow> refund_requests cs tid uid d = (rs, d') \<Longrightarrow>
   Inr True \<notin> set rs \<and> d' = d"
proof (induction cs arbitrary: rs d')
  case Nil
  then show ?case by simp
next
  case (Cons c cs)
  obtain r s where r: "refund_task (fst c) (snd c) tid uid (new_session d) = (r, s)"
    by (cases "refund_task (fst c) (snd c) tid uid (new_session d)")
  with Cons.prems(1) have same: "r \<noteq> Inr True" "s = new_session d"
    using refund_task_refunded by blast+
  obtain rs' d'' where rest: "refund_requests cs tid uid d = (rs', d'')"
    by (cases "refund_requests cs tid uid d")
  with Cons.IH [OF Cons.prems(1), of rs' d''] have "Inr True \<notin> set rs'" "d'' = d" by simp_all
  with Cons.prems(2) r same rest show ?case
    by (auto simp: new_session_def)
qed

lemma refund_requests_once:
  "refund_requests cs tid uid d = (rs, d') \<Longrightarrow>
   length (filter (\<lambda>r. r = Inr True) rs) \<le> 1
   \<and> (Inr True \<notin> set rs \<longrightarrow> d' = d)
   \<and> (Inr True \<in> set rs \<longrightarrow>
        (\<exists>task. get_by_id_and_user tid uid (new_session d) = Some task
           \<and> users d' = credit uid (cost task) (users d)))"
proof (induction cs arbitrary: rs d')
  case Nil
  then show ?case by simp
next
  case (Cons c cs)
  obtain r s where r: "refund_task (fst c) (snd c) tid uid (new_session d) = (r, s)"
    by (cases "refund_task (fst c) (snd c) tid uid (new_session d)")
  obtain rs' d'' where rest: "refund_requests cs tid uid (committed s) = (rs', d'')"
    by (cases "refund_requests cs tid uid (committed s)")
  from Cons.prems r rest have out: "rs = r # rs'" "d' = d''" by simp_all
  from refund_task_fresh [OF r] show ?case
  proof (elim disjE conjE exE)
    assume "r \<noteq> Inr True" "s = new_session d"
    with rest Cons.IH [of rs' d''] out show ?thesis
      by (simp add: new_session_def)
  next
    fix task
    assume t: "r = Inr True" "get_by_id_and_user tid uid (new_session d) = Some task"
      and s: "s = new_session
            (d\<lparr>users := credit uid (cost task) (users d),
               transactions := transactions d @
                 [inserted_row (create_refund (fst c) (snd c) uid (cost task) 0 tid
                    (Some (''Refund for task '' @ take 8 tid @ ''...'')))]\<rparr>)"
    have "refunded tid (committed s)"
      by (simp add: s new_session_def refunded_def create_refund_def inserted_row_def)
    from refund_requests_refunded [OF this rest] have "Inr True \<notin> set rs'" "d'' = committed s"
      by simp_all
    with t out s show ?thesis
      by (auto simp: new_session_def filter_empty_conv)
  qed
qed

text \<open>
  C3. \<open>BillingService.refund\<close> first appends the \<open>REFUND\<close> row with
  \<open>save_idempotent\<close> and credits the balance only when the row was inserted:
  \<^item> when the ledger already holds a \<open>REFUND\<close> row for the task, \<open>refund\<close> raises
    \<open>RefundAlreadyProcessedError\<close> with the session rolled back and no call of
    \<open>update_balance_atomic\<close> (for an amount that the \<open>Numeric(12, 4)\<close> column cannot
    hold, the \<open>INSERT\<close> raises \<open>DataError\<close> instead, with the same effect);
    \<open>refund_task\<close> turns this into the answer \<open>False\<close> and the route into the status
    \<open>already_refunded\<close> with \<open>errorId\<close> 0, leaving the database as it was;
  \<^item> when \<open>refund\<close> returns a balance, the ledger held no \<open>REFUND\<close> row for the task
    before, and the commit holds the new row, as stored, and the credited balance;
    when it raises, the session is rolled back;
  \<^item> of any number of refund requests for one task at most one answers \<open>True\<close>; the
    account is credited the cost of the task once if one does, and the database is
    unchanged if none does.
\<close>

theorem refund_appends_before_crediting:
  "(refunded tid (pending s) \<longrightarrow>
      refund i n uid amt tid descr s =
        (Inl (if 100000000 \<le> \<bar>quantize amt\<bar> then DataError
              else RefundAlreadyProcessedError tid), rollback s))
   \<and> (refunded tid d \<longrightarrow> get_by_id_and_user tid uid (new_session d) = Some task \<longrightarrow>
        status task = READY \<longrightarrow> 0 < cost task \<longrightarrow>
        refund_task i n tid uid (new_session d) = (Inr False, new_session d)
        \<and> report_incorrect i n tid uid (new_session d)
            = (\<lparr>errorId = 0, response_status = Some ''already_refunded''\<rparr>, new_session d))
   \<and> (refund i n uid amt tid descr s = (Inr nb, s') \<longrightarrow>
        \<not> refunded tid (pending s)
        \<and> transactions (committed s') = transactions (pending s) @
              [inserted_row (create_refund i n uid amt 0 tid
                 (description_or descr (''Refund for task '' @ take 8 tid @ ''...'')))]
        \<and> users (committed s') = credit uid \<bar>amt\<bar> (users (pending s)))
   \<and> (refund i n uid amt tid descr s = (Inl e, s') \<longrightarrow> s' = rollback s)
   \<and> (refund_requests cs tid uid d = (rs, d') \<longrightarrow>
        length (filter (\<lambda>r. r = Inr True) rs) \<le> 1
        \<and> (Inr True \<notin> set rs \<longrightarrow> d' = d)
        \<and> (Inr True \<in> set rs \<longrightarrow>
             (\<exists>t. get_by_id_and_user tid uid (new_session d) = Some t
                \<and> users d' = credit uid (cost t) (users d))))"
proof (intro conjI impI)
  assume "refunded tid (pending s)"
  then show "refund i n uid amt tid descr s =
      (Inl (if 100000000 \<le> \<bar>quantize amt\<bar> then DataError
            else RefundAlreadyProcessedError tid), rollback s)"
    by (rule refund_duplicate)
next
  assume a: "refunded tid d" "get_by_id_and_user tid uid (new_session d) = Some task"
    "status task = READY" "0 < cost task"
  have "refund i n uid (cost task) tid None (new_session d)
      = (Inl (if 100000000 \<le> \<bar>quantize (cost task)\<bar> then DataError
              else RefundAlreadyProcessedError tid), new_session d)"
    using refund_duplicate [of tid "new_session d" i n uid "cost task" None] a(1)
    by (simp add: new_session_def rollback_def)
  with a show rt: "refund_task i n tid uid (new_session d) = (Inr False, new_session d)"
    by (simp add: refund_task_def get_task_def)
  then show "report_incorrect i n tid uid (new_session d)
      = (\<lparr>errorId = 0, response_status = Some ''already_refunded''\<rparr>, new_session d)"
    by (simp add: report_incorrect_def)
next
  assume a: "refund i n uid amt tid descr s = (Inr nb, s')"
  from refund_cases [OF a]
  have nv: "\<not> violates_constraints (create_refund i n uid amt 0 tid
        (description_or descr (''Refund for task '' @ take 8 tid @ ''...''))) (pending s)"
    and c: "committed s' = (pending s)\<lparr>users := credit uid \<bar>amt\<bar> (users (pending s)),
        transactions := transactions (pending s) @
          [inserted_row (create_refund i n uid amt 0 tid
             (description_or descr (''Refund for task '' @ take 8 tid @ ''...'')))]\<rparr>"
    by simp_all
  from nv show "\<not> refunded tid (pending s)"
    by (simp add: violates_constraints_def refunded_def create_refund_def)
  from c show "transactions (committed s') = transactions (pending s) @
      [inserted_row (create_refund i n uid amt 0 tid
         (description_or descr (''Refund for task '' @ take 8 tid @ ''...'')))]"
    by simp
  from c show "users (committed s') = credit uid \<bar>amt\<bar> (users (pending s))"
    by simp
next
  assume "refund i n uid amt tid descr s = (Inl e, s')"
  from refund_cases [OF this] show "s' = rollback s"
    by simp
next
  assume a: "refund_requests cs tid uid d = (rs, d')"
  note once = refund_requests_once [OF a]
  from once show "length (filter (\<lambda>r. r = Inr True) rs) \<le> 1"
    by simp
  { assume "Inr True \<notin> set rs" with once show "d' = d" by simp }
  { assume "Inr True \<in> set rs"
    with once show "\<exists>t. get_by_id_and_user tid uid (new_session d) = Some t
        \<and> users d' = credit uid (cost t) (users d)" by simp }
qed

theorem refund_appends_before_crediting_witness:
  "refunded ''J'' (serve [complete_J ''x1'', refund_J ''x2''] (sample_db 100 PROCESSING 0))
   \<and> \<not> refunded ''J'' (serve [complete_J ''x1''] (sample_db 100 PROCESSING 0))
   \<and> fst (refund ''x2'' 4 ''A'' 10 ''J'' None
          (new_session (serve [complete_J ''x1''] (sample_db 100 PROCESSING 0)))) = Inr 100
   \<and> refund ''x3'' 5 ''A'' 10 ''J'' None
          (new_session (serve [complete_J ''x1'', refund_J ''x2''] (sample_db 100 PROCESSING 0)))
       = (Inl (RefundAlreadyProcessedError ''J''),
          new_session (serve [complete_J ''x1'', refund_J ''x2''] (sample_db 100 PROCESSING 0)))
   \<and> report_incorrect ''x3'' 5 ''J'' ''A''
          (new_session (serve [complete_J ''x1'', refund_J ''x2''] (sample_db 100 PROCESSING 0)))
       = (\<lparr>errorId = 0, response_status = Some ''already_refunded''\<rparr>,
          new_session (serve [complete_J ''x1'', refund_J ''x2''] (sample_db 100 PROCESSING 0)))
   \<and> fst (refund_requests [(''x2'', 4), (''x3'', 5), (''x4'', 6)] ''J'' ''A''
          (serve [complete_J ''x1''] (sample_db 100 PROCESSING 0)))
       = [Inr True, Inr False, Inr False]
   \<and> map balance (users (serve [complete_J ''x1''] (sample_db 100 PROCESSING 0))) = [90]
   \<and> map balance (users (snd (refund_requests [(''x2'', 4), (''x3'', 5), (''x4'', 6)] ''J'' ''A''
          (serve [complete_J ''x1''] (sample_db 100 PROCESSING 0))))) = [100]"
proof -
  let ?paid = "serve [complete_J ''x1''] (sample_db 100 PROCESSING 0)"
  let ?refd = "serve [complete_J ''x1'', refund_J ''x2''] (sample_db 100 PROCESSING 0)"
  let ?task = "(sample_task READY 10)\<lparr>token := Some ''tok'', completed_at := Some 3\<rparr>"
  let ?calls = "[(''x2'', 4), (''x3'', 5), (''x4'', 6)] :: (uuid \<times> datetime) list"
  have already: "refunded ''J'' ?refd" and fresh: "\<not> refunded ''J'' ?paid"
    by (simp_all add: eval_defs refunded_def)
  have task: "get_by_id_and_user ''J'' ''A'' (new_session ?refd) = Some ?task"
    by (simp add: eval_defs)
  have first: "fst (refund ''x2'' 4 ''A'' 10 ''J'' None (new_session ?paid)) = Inr 100"
    by (simp add: eval_defs)
  then have first': "refund ''x2'' 4 ''A'' 10 ''J'' None (new_session ?paid)
      = (Inr 100, snd (refund ''x2'' 4 ''A'' 10 ''J'' None (new_session ?paid)))"
    by (metis prod.collapse)
  have run: "fst (refund_requests ?calls ''J'' ''A'' ?paid) = [Inr True, Inr False, Inr False]"
    by (simp add: eval_defs)
  then have run': "refund_requests ?calls ''J'' ''A'' ?paid
      = ([Inr True, Inr False, Inr False], snd (refund_requests ?calls ''J'' ''A'' ?paid))"
    by (metis prod.collapse)
  have before: "map balance (users ?paid) = [90]"
    by (simp add: eval_defs)
  have same: "rollback (new_session ?refd) = new_session ?refd"
    by (simp add: rollback_def new_session_def)
  have q10: "quantize 10 = 10"
    by (simp add: money_defs)
  note thm1 = refund_appends_before_crediting
      [where tid = "''J''" and s = "new_session ?refd" and i = "''x3''" and n = 5 and uid = "''A''"
         and amt = 10 and descr = None and d = ?refd and task = ?task
         and e = "RefundAlreadyProcessedError ''J''" and s' = "new_session ?refd"
         and cs = "[]" and rs = "[]" and d' = ?refd]
  note thm2 = refund_appends_before_crediting
      [where tid = "''J''" and s = "new_session ?paid" and i = "''x2''" and n = 4 and uid = "''A''"
         and amt = 10 and descr = None and d = ?paid and nb = 100
         and s' = "snd (refund ''x2'' 4 ''A'' 10 ''J'' None (new_session ?paid))"
         and cs = ?calls and rs = "[Inr True, Inr False, Inr False]"
         and d' = "snd (refund_requests ?calls ''J'' ''A'' ?paid)"]
  have dup: "refund ''x3'' 5 ''A'' 10 ''J'' None (new_session ?refd)
      = (Inl (RefundAlreadyProcessedError ''J''), new_session ?refd)"
    using thm1 already q10 by (simp add: new_session_def rollback_def)
  have rep: "report_incorrect ''x3'' 5 ''J'' ''A'' (new_session ?refd)
      = (\<lparr>errorId = 0, response_status = Some ''already_refunded''\<rparr>, new_session ?refd)"
    using thm1 already task by (simp add: sample_task_def)
  have "\<exists>t. get_by_id_and_user ''J'' ''A'' (new_session ?paid) = Some t
      \<and> users (snd (refund_requests ?calls ''J'' ''A'' ?paid)) = credit ''A'' (cost t) (users ?paid)"
    using thm2 run' by simp
  moreover have "get_by_id_and_user ''J'' ''A'' (new_session ?paid) = Some ?task"
    by (simp add: eval_defs)
  ultimately have after: "map balance (users (snd (refund_requests ?calls ''J'' ''A'' ?paid))) = [100]"
    using before by (auto simp: credit_def sample_task_def eval_defs)
  show ?thesis
    using already fresh first dup rep run before after by simp
qed

text \<open>
  C8. \<open>refund_task\<close> answers \<open>True\<close> or \<open>False\<close>, or raises \<open>EntityNotFoundError\<close> when
  the caller has no such task. For a task that is not \<open>READY\<close> or whose cost is not
  positive it changes nothing and answers \<open>False\<close>, never an error; for a task whose
  refund is in the ledger it answers \<open>False\<close> as well. The route reports \<open>True\<close> as
  \<open>success\<close> and \<open>False\<close> as \<open>already_refunded\<close>, both with \<open>errorId\<close> 0: a task that
  is not eligible and a task already refunded get the same answer.
\<close>

theorem refund_task_outcomes:
  "fst (refund_task i n tid uid s) \<in> {Inr True, Inr False, Inl (EntityNotFoundError ''Task'' tid)}
   \<and> (get_by_id_and_user tid uid s = Some task \<longrightarrow> (status task \<noteq> READY \<or> cost task \<le> 0) \<longrightarrow>
        refund_task i n tid uid s = (Inr False, s)
        \<and> report_incorrect i n tid uid s
            = (\<lparr>errorId = 0, response_status = Some ''already_refunded''\<rparr>, s))
   \<and> (get_by_id_and_user tid uid s = Some task \<longrightarrow> status task = READY \<longrightarrow> 0 < cost task \<longrightarrow>
        refunded tid (pending s) \<longrightarrow>
        refund_task i n tid uid s = (Inr False, rollback s)
        \<and> report_incorrect i n tid uid s
            = (\<lparr>errorId = 0, response_status = Some ''already_refunded''\<rparr>, rollback s))
   \<and> (fst (refund_task i n tid uid s) = Inr True \<longrightarrow>
        fst (report_incorrect i n tid uid s) = \<lparr>errorId = 0, response_status = Some ''success''\<rparr>)"
proof (intro conjI impI)
  show "fst (refund_task i n tid uid s) \<in> {Inr True, Inr False, Inl (EntityNotFoundError ''Task'' tid)}"
    by (auto simp: refund_task_def get_task_def split: option.splits prod.splits sum.splits)
next
  assume a: "get_by_id_and_user tid uid s = Some task" "status task \<noteq> READY \<or> cost task \<le> 0"
  then show rt: "refund_task i n tid uid s = (Inr False, s)"
    by (auto simp: refund_task_def get_task_def)
  then show "report_incorrect i n tid uid s
      = (\<lparr>errorId = 0, response_status = Some ''already_refunded''\<rparr>, s)"
    by (simp add: report_incorrect_def)
next
  assume a: "get_by_id_and_user tid uid s = Some task" "status task = READY" "0 < cost task"
    "refunded tid (pending s)"
  then show rt: "refund_task i n tid uid s = (Inr False, rollback s)"
    by (simp add: refund_task_def get_task_def refund_duplicate)
  then show "report_incorrect i n tid uid s
      = (\<lparr>errorId = 0, response_status = Some ''already_refunded''\<rparr>, rollback s)"
    by (simp add: report_incorrect_def)
next
  assume "fst (refund_task i n tid uid s) = Inr True"
  then show "fst (report_incorrect i n tid uid s) = \<lparr>errorId = 0, response_status = Some ''success''\<rparr>"
    by (cases "refund_task i n tid uid s") (simp add: report_incorrect_def)
qed

text \<open>
  A task still \<open>PENDING\<close> and a task already refunded are answered alike, by
  \<open>refund_task\<close> and by the route: there is no third outcome for "not eligible".
\<close>

theorem refund_task_outcomes_counterexample:
  "fst (refund_task ''x3'' 5 ''J'' ''A'' (new_session (sample_db 100 PENDING 0))) = Inr False
   \<and> fst (refund_task ''x3'' 5 ''J'' ''A''
        (new_session (serve [complete_J ''x1'', refund_J ''x2''] (sample_db 100 PROCESSING 0))))
       = Inr False
   \<and> fst (report_incorrect ''x3'' 5 ''J'' ''A'' (new_session (sample_db 100 PENDING 0)))
       = \<lparr>errorId = 0, response_status = Some ''already_refunded''\<rparr>
   \<and> fst (report_incorrect ''x3'' 5 ''J'' ''A''
        (new_session (serve [complete_J ''x1'', refund_J ''x2''] (sample_db 100 PROCESSING 0))))
       = \<lparr>errorId = 0, response_status = Some ''already_refunded''\<rparr>"
  by (simp add: eval_defs report_incorrect_def)

theorem refund_task_outcomes_witness:
  "get_by_id_and_user ''J'' ''A'' (new_session (sample_db 100 PENDING 0)) = Some (sample_task PENDING 0)
   \<and> refund_task ''x3'' 5 ''J'' ''A'' (new_session (sample_db 100 PENDING 0))
       = (Inr False, new_session (sample_db 100 PENDING 0))
   \<and> report_incorrect ''x3'' 5 ''J'' ''A'' (new_session (sample_db 100 READY 0))
       = (\<lparr>errorId = 0, response_status = Some ''already_refunded''\<rparr>,
          new_session (sample_db 100 READY 0))
   \<and> refunded ''J'' (serve [complete_J ''x1'', refund_J ''x2''] (sample_db 100 PROCESSING 0))
   \<and> refund_task ''x3'' 5 ''J'' ''A''
        (new_session (serve [complete_J ''x1'', refund_J ''x2''] (sample_db 100 PROCESSING 0)))
       = (Inr False,
          new_session (serve [complete_J ''x1'', refund_J ''x2''] (sample_db 100 PROCESSING 0)))
   \<and> fst (refund_task ''x2'' 4 ''J'' ''A''
        (new_session (serve [complete_J ''x1''] (sample_db 100 PROCESSING 0)))) = Inr True
   \<and> fst (report_incorrect ''x2'' 4 ''J'' ''A''
        (new_session (serve [complete_J ''x1''] (sample_db 100 PROCESSING 0))))
       = \<lparr>errorId = 0, response_status = Some ''success''\<rparr>"
proof -
  let ?paid = "serve [complete_J ''x1''] (sample_db 100 PROCESSING 0)"
  let ?refd = "serve [complete_J ''x1'', refund_J ''x2''] (sample_db 100 PROCESSING 0)"
  let ?task = "(sample_task READY 10)\<lparr>token := Some ''tok'', completed_at := Some 3\<rparr>"
  have pending_task: "get_by_id_and_user ''J'' ''A'' (new_session (sample_db 100 PENDING 0))
      = Some (sample_task PENDING 0)"
    and free_task: "get_by_id_and_user ''J'' ''A'' (new_session (sample_db 100 READY 0))
      = Some (sample_task READY 0)"
    by (simp_all add: get_by_id_and_user_def new_session_def sample_db_def sample_task_def)
  have task: "get_by_id_and_user ''J'' ''A'' (new_session ?refd) = Some ?task"
    and already: "refunded ''J'' ?refd"
    and paid: "fst (refund_task ''x2'' 4 ''J'' ''A'' (new_session ?paid)) = Inr True"
    by (simp_all add: eval_defs refunded_def)
  have same: "rollback (new_session ?refd) = new_session ?refd"
    by (simp add: rollback_def new_session_def)
  show ?thesis
    using pending_task free_task task already paid
      refund_task_outcomes [of "''x3''" 5 "''J''" "''A''" "new_session (sample_db 100 PENDING 0)"
        "sample_task PENDING 0"]
      refund_task_outcomes [of "''x3''" 5 "''J''" "''A''" "new_session (sample_db 100 READY 0)"
        "sample_task READY 0"]
      refund_task_outcomes [of "''x3''" 5 "''J''" "''A''" "new_session ?refd" ?task]
      refund_task_outcomes [of "''x2''" 4 "''J''" "''A''" "new_session ?paid" ?task]
    by (simp add: same) (simp add: sample_task_def new_session_def)
qed

section \<open>The balance snapshot of a ledger row\<close>

text \<open>
  C9. Completing the sample task at price 10 from a balance of 100 and refunding it:
  the \<open>DEDUCT\<close> row records the balance 90 that the deduction left, but the \<open>REFUND\<close>
  row records the placeholder 0 that \<open>BillingService.refund\<close> passes to
  \<open>create_refund\<close>, while the refund leaves the balance 100.
\<close>

theorem refund_balance_after_is_placeholder:
  "map (\<lambda>t. (tx_type t, amount t, balance_after t))
     (transactions (serve [complete_J ''x1'', refund_J ''x2''] (sample_db 100 PROCESSING 0)))
     = [(DEDUCT, - 10, 90), (REFUND, 10, 0)]
   \<and> map balance (users (serve [complete_J ''x1''] (sample_db 100 PROCESSING 0))) = [90]
   \<and> map balance (users (serve [complete_J ''x1'', refund_J ''x2''] (sample_db 100 PROCESSING 0)))
     = [100]"
  by (simp add: eval_defs)


section \<open>State transitions on the repository path\<close>

text \<open>
  C1. The entity refuses every transition out of \<open>READY\<close> and \<open>FAILED\<close> with
  \<open>InvalidStateTransitionError\<close>, but the services go through
  \<open>TaskRepository.update_status\<close>, which never reads the current state: \<open>fail_task\<close>
  on a \<open>READY\<close> task returns the task as \<open>FAILED\<close>, \<open>start_processing\<close> on a \<open>READY\<close>
  task succeeds and leaves it \<open>PROCESSING\<close>, and \<open>complete_task\<close> on a \<open>FAILED\<close> task
  bills the account and returns the task as \<open>READY\<close>.
\<close>

theorem update_status_overwrites_terminal_state:
  "Task_fail 9 (sample_task READY 10) ''E'' None = Inl (InvalidStateTransitionError READY FAILED)
   \<and> fst (fail_task 9 ''J'' ''E'' None (new_session (sample_db 90 READY 10)))
       = Inr ((sample_task FAILED 10)\<lparr>error_code := Some ''E'', completed_at := Some 9\<rparr>)
   \<and> Task_start_processing 9 (sample_task READY 10) = Inl (InvalidStateTransitionError READY PROCESSING)
   \<and> fst (start_processing 9 ''J'' (new_session (sample_db 90 READY 10))) = Inr True
   \<and> map status (tasks (committed (snd (start_processing 9 ''J'' (new_session (sample_db 90 READY 10))))))
       = [PROCESSING]
   \<and> Task_complete 3 (sample_task FAILED 0) ''tok'' 10 = Inl (InvalidStateTransitionError FAILED READY)
   \<and> fst (complete_task ''x1'' 2 3 10 ''J'' ''tok'' (new_session (sample_db 100 FAILED 0)))
       = Inr ((sample_task READY 10)\<lparr>token := Some ''tok'', completed_at := Some 3\<rparr>)
   \<and> map balance (users (committed (snd
         (complete_task ''x1'' 2 3 10 ''J'' ''tok'' (new_session (sample_db 100 FAILED 0)))))) = [90]
   \<and> map (\<lambda>t. (tx_type t, amount t, reference t)) (transactions (committed (snd
         (complete_task ''x1'' 2 3 10 ''J'' ''tok'' (new_session (sample_db 100 FAILED 0))))))
       = [(DEDUCT, - 10, ''J'', ''TASK'')]"
  by (simp add: eval_defs reference_def Task_fail_def Task_start_processing_def Task_complete_def
      Task_transition_to_def can_transition_to_def)

section \<open>The rate admission gate\<close>











end
